theory Spec2Isabelle
  imports Complex_Main
begin

section \<open>Python strings and character tables\<close>

text \<open>
  A Python \<open>str\<close> is a sequence of Unicode code points, so it is modelled as a list of
  natural numbers. The character tables below are those of CPython for Basic Latin and
  Latin-1 Supplement (code points below 256), together with the complete white-space
  list; code points from 256 on are taken as caseless, not decimal and not word
  characters.
\<close>

type_synonym pystr = "nat list"

definition u :: "string \<Rightarrow> pystr" where
  "u s = map of_char s"

definition py_isspace :: "nat \<Rightarrow> bool" where
  "py_isspace c = ((9 \<le> c \<and> c \<le> 13) \<or> (28 \<le> c \<and> c \<le> 32) \<or> c = 133 \<or> c = 160
     \<or> c = 5760 \<or> (8192 \<le> c \<and> c \<le> 8202) \<or> c = 8232 \<or> c = 8233 \<or> c = 8239
     \<or> c = 8287 \<or> c = 12288)"

definition py_isdecimal :: "nat \<Rightarrow> bool" where
  "py_isdecimal c = (48 \<le> c \<and> c \<le> 57)"

definition py_isword :: "nat \<Rightarrow> bool" where
  "py_isword c = ((48 \<le> c \<and> c \<le> 57) \<or> (65 \<le> c \<and> c \<le> 90) \<or> c = 95
     \<or> (97 \<le> c \<and> c \<le> 122) \<or> c = 170 \<or> c = 178 \<or> c = 179 \<or> c = 181
     \<or> (185 \<le> c \<and> c \<le> 186) \<or> (188 \<le> c \<and> c \<le> 190)
     \<or> (192 \<le> c \<and> c \<le> 214) \<or> (216 \<le> c \<and> c \<le> 246) \<or> (248 \<le> c \<and> c \<le> 255))"

definition py_lower_char :: "nat \<Rightarrow> nat" where
  "py_lower_char c =
     (if (65 \<le> c \<and> c \<le> 90) \<or> (192 \<le> c \<and> c \<le> 214) \<or> (216 \<le> c \<and> c \<le> 222)
      then c + 32 else c)"

definition lower :: "pystr \<Rightarrow> pystr" where
  "lower s = map py_lower_char s"

definition strip :: "pystr \<Rightarrow> pystr" where
  "strip s = rev (dropWhile py_isspace (rev (dropWhile py_isspace s)))"

text \<open>\<open>s.replace(c, "")\<close> for a one-character \<open>c\<close>.\<close>

definition remove_char :: "nat \<Rightarrow> pystr \<Rightarrow> pystr" where
  "remove_char c s = filter (\<lambda>x. x \<noteq> c) s"

definition startswith :: "pystr \<Rightarrow> pystr \<Rightarrow> bool" where
  "startswith s k = (take (length k) s = k)"

definition endswith :: "pystr \<Rightarrow> pystr \<Rightarrow> bool" where
  "endswith s k = (length k \<le> length s \<and> drop (length s - length k) s = k)"

text \<open>The substring test \<open>k in c\<close>.\<close>

fun contains :: "pystr \<Rightarrow> pystr \<Rightarrow> bool" where
  "contains [] k = (k = [])"
| "contains (c # cs) k = (startswith (c # cs) k \<or> contains cs k)"

section \<open>Regular expressions of the \<open>re\<close> module\<close>

text \<open>
  The patterns of the source use literals, character classes, alternation, optional
  parts, repetition of one character class (greedy or lazy), groups, \<open>\b\<close>, \<open>^\<close> and
  \<open>$\<close>. A match state is the reversed text before the position, the text from the
  position on, and the groups captured so far. \<open>rmatch\<close> lists the states a pattern can
  reach from a state, in the order in which the backtracking matcher tries them, so that
  the head of the list is the match that \<open>re\<close> reports.
\<close>

datatype rx =
    Eps
  | Cls "nat \<Rightarrow> bool"
  | Seq rx rx
  | Alt rx rx
  | Opt rx
  | Rep bool nat "nat \<Rightarrow> bool"
  | Grp nat rx
  | Bnd
  | Bos
  | Eos

type_synonym mstate = "pystr \<times> pystr \<times> (nat \<times> pystr) list"

fun runs :: "(nat \<Rightarrow> bool) \<Rightarrow> pystr \<Rightarrow> pystr \<Rightarrow> (pystr \<times> pystr) list" where
  "runs p pre [] = [(pre, [])]"
| "runs p pre (c # cs) = (pre, c # cs) # (if p c then runs p (c # pre) cs else [])"

definition word_at :: "pystr \<Rightarrow> bool" where
  "word_at s = (case s of [] \<Rightarrow> False | c # _ \<Rightarrow> py_isword c)"

fun rmatch :: "rx \<Rightarrow> mstate \<Rightarrow> mstate list" where
  "rmatch Eps st = [st]"
| "rmatch (Cls p) (pre, post, g) =
     (case post of [] \<Rightarrow> [] | c # cs \<Rightarrow> if p c then [(c # pre, cs, g)] else [])"
| "rmatch (Seq a b) st = concat (map (rmatch b) (rmatch a st))"
| "rmatch (Alt a b) st = rmatch a st @ rmatch b st"
| "rmatch (Opt a) st = rmatch a st @ [st]"
| "rmatch (Rep greedy n p) (pre, post, g) =
     (let rs = drop n (runs p pre post)
      in map (\<lambda>(a, b). (a, b, g)) (if greedy then rev rs else rs))"
| "rmatch (Grp k a) (pre, post, g) =
     map (\<lambda>(pre', post', g'). (pre', post', (k, rev (take (length pre' - length pre) pre')) # g'))
       (rmatch a (pre, post, g))"
| "rmatch Bnd (pre, post, g) = (if word_at pre \<noteq> word_at post then [(pre, post, g)] else [])"
| "rmatch Bos (pre, post, g) = (if pre = [] then [(pre, post, g)] else [])"
| "rmatch Eos (pre, post, g) = (if post = [] \<or> post = [10] then [(pre, post, g)] else [])"

text \<open>\<open>re.match\<close> tries the start of the string only; \<open>re.search\<close> tries every start
  position from left to right.\<close>

definition re_match :: "rx \<Rightarrow> pystr \<Rightarrow> mstate option" where
  "re_match r s = (case rmatch r ([], s, []) of [] \<Rightarrow> None | m # _ \<Rightarrow> Some m)"

fun search_from :: "rx \<Rightarrow> pystr \<Rightarrow> pystr \<Rightarrow> mstate option" where
  "search_from r pre [] = (case rmatch r (pre, [], []) of [] \<Rightarrow> None | m # _ \<Rightarrow> Some m)"
| "search_from r pre (c # cs) =
     (case rmatch r (pre, c # cs, []) of [] \<Rightarrow> search_from r (c # pre) cs | m # _ \<Rightarrow> Some m)"

definition re_search :: "rx \<Rightarrow> pystr \<Rightarrow> mstate option" where
  "re_search r s = search_from r [] s"

definition group :: "mstate \<Rightarrow> nat \<Rightarrow> pystr" where
  "group m k = (case map_of (snd (snd m)) k of None \<Rightarrow> [] | Some s \<Rightarrow> s)"

text \<open>Pattern builders: one literal character, a literal string, a character set.\<close>

definition chr :: "nat \<Rightarrow> rx" where
  "chr c = Cls (\<lambda>x. x = c)"

definition lit :: "pystr \<Rightarrow> rx" where
  "lit w = foldr (\<lambda>c r. Seq (chr c) r) w Eps"

definition one_of :: "pystr \<Rightarrow> rx" where
  "one_of cs = Cls (\<lambda>x. x \<in> set cs)"

fun alts :: "rx list \<Rightarrow> rx" where
  "alts [] = Cls (\<lambda>x. False)"
| "alts [r] = r"
| "alts (r # rs) = Alt r (alts rs)"

definition seqs :: "rx list \<Rightarrow> rx" where
  "seqs rs = foldr Seq rs Eps"

section \<open>Floating-point values\<close>

text \<open>
  A Python \<open>float\<close> is a binary64 value: a finite number, an infinity or a NaN. The
  model keeps finite values as exact rationals (rounding of the mantissa is not
  modelled) and does model overflow: a result whose magnitude reaches
  \<open>2^1024 - 2^970\<close> becomes an infinity, as rounding to nearest does.
\<close>

datatype pyfloat = Fin rat | PInf | NInf | NaN

datatype error = ValueError | ZeroDivisionError | IndexError

definition overflow_bound :: rat where
  "overflow_bound = 2 ^ 1024 - 2 ^ 970"

definition to_binary64 :: "rat \<Rightarrow> pyfloat" where
  "to_binary64 v =
     (if overflow_bound \<le> v then PInf else if v \<le> - overflow_bound then NInf else Fin v)"

fun fneg :: "pyfloat \<Rightarrow> pyfloat" where
  "fneg (Fin v) = Fin (- v)"
| "fneg PInf = NInf"
| "fneg NInf = PInf"
| "fneg NaN = NaN"

fun fadd :: "pyfloat \<Rightarrow> pyfloat \<Rightarrow> pyfloat" where
  "fadd (Fin a) (Fin b) = to_binary64 (a + b)"
| "fadd NaN y = NaN"
| "fadd x NaN = NaN"
| "fadd PInf NInf = NaN"
| "fadd NInf PInf = NaN"
| "fadd PInf y = PInf"
| "fadd NInf y = NInf"
| "fadd x PInf = PInf"
| "fadd x NInf = NInf"

text \<open>Truth value of a float: everything but zero is true, NaN included.\<close>

definition ftruthy :: "pyfloat \<Rightarrow> bool" where
  "ftruthy x = (x \<noteq> Fin 0)"

text \<open>The quotient of two floats by a divisor that is not zero (the sign of a zero
  result is not modelled).\<close>

fun fquot :: "pyfloat \<Rightarrow> pyfloat \<Rightarrow> pyfloat" where
  "fquot x NaN = NaN"
| "fquot NaN y = NaN"
| "fquot (Fin a) (Fin b) = to_binary64 (a / b)"
| "fquot PInf (Fin b) = (if 0 < b then PInf else NInf)"
| "fquot NInf (Fin b) = (if 0 < b then NInf else PInf)"
| "fquot (Fin a) y = Fin 0"
| "fquot x y = NaN"

text \<open>True division raises \<open>ZeroDivisionError\<close> on a zero divisor.\<close>

definition fdiv :: "pyfloat \<Rightarrow> pyfloat \<Rightarrow> error + pyfloat" where
  "fdiv x y = (if y = Fin 0 then Inl ZeroDivisionError else Inr (fquot x y))"

text \<open>
  \<open>float(s)\<close> on a string: surrounding white space is ignored, then a sign and a
  decimal numeral are read. Python also reads exponents, digit-separating underscores
  and the words for infinity and NaN; the model raises \<open>ValueError\<close> on those, so
  it raises at least as often as Python does.
\<close>

definition nat_of_digits :: "pystr \<Rightarrow> nat" where
  "nat_of_digits ds = foldl (\<lambda>a c. 10 * a + (c - 48)) 0 ds"

definition parse_unsigned :: "pystr \<Rightarrow> rat option" where
  "parse_unsigned s =
     (let ip = takeWhile (\<lambda>c. c \<noteq> 46) s; rest = dropWhile (\<lambda>c. c \<noteq> 46) s
      in case rest of
           [] \<Rightarrow> if ip \<noteq> [] \<and> list_all py_isdecimal ip
                 then Some (of_nat (nat_of_digits ip)) else None
         | _ # fp \<Rightarrow> if list_all py_isdecimal ip \<and> list_all py_isdecimal fp \<and> (ip \<noteq> [] \<or> fp \<noteq> [])
                 then Some (of_nat (nat_of_digits (ip @ fp)) / 10 ^ length fp) else None)"

definition py_float :: "pystr \<Rightarrow> error + pyfloat" where
  "py_float s =
     (let t = strip s;
          neg = startswith t [45];
          body = (if startswith t [45] \<or> startswith t [43] then tl t else t)
      in case parse_unsigned body of
           None \<Rightarrow> Inl ValueError
         | Some v \<Rightarrow> Inr (to_binary64 (if neg then - v else v)))"

section \<open>The number parser\<close>

text \<open>
  An argument of \<open>try_number\<close> is \<open>None\<close>, a string, or another object (a number or
  a date read from a cell), which the code only asks for its truth value and its
  \<open>str()\<close> rendering.
\<close>

datatype pyobj = PNone | PStr pystr | PObj bool pystr

fun py_str :: "pyobj \<Rightarrow> pystr" where
  "py_str PNone = u ''None''"
| "py_str (PStr s) = s"
| "py_str (PObj t s) = s"

fun truthy :: "pyobj \<Rightarrow> bool" where
  "truthy PNone = False"
| "truthy (PStr s) = (s \<noteq> [])"
| "truthy (PObj t s) = t"

text \<open>The pattern \<open>^-?\d+(\.\d+)?$\<close>.\<close>

definition number_rx :: rx where
  "number_rx = seqs [Bos, Opt (chr 45), Rep True 1 py_isdecimal,
                     Opt (Grp 1 (Seq (chr 46) (Rep True 1 py_isdecimal))), Eos]"

definition try_number :: "pyobj \<Rightarrow> error + pyfloat option" where
  "try_number x =
     (if x = PNone then Inr None
      else
        let s = remove_char 160 (remove_char 44 (remove_char 32 (strip (py_str x))));
            neg = (startswith s [40] \<and> endswith s [41]);
            s = remove_char 41 (remove_char 40 s)
        in if re_match number_rx s = None then Inr None
           else case py_float s of
                  Inl e \<Rightarrow> Inl e
                | Inr v \<Rightarrow> Inr (Some (if neg then fneg v else v)))"

section \<open>The fixed schema and the label classifier\<close>

definition FIXED_ROWS :: "pystr list" where
  "FIXED_ROWS = map u
    [''Revenue | Product'', ''Revenue | Services'', ''Revenue | Other Operating Revenue'',
     ''COGS | Materials'', ''COGS | Direct Labor'', ''COGS | Purchased Services'',
     ''COGS | Other COGS'',
     ''Gross Profit (derived)'',
     ''OpEx | Sales & Marketing | People'', ''OpEx | Sales & Marketing | Media/Ads'',
     ''OpEx | Sales & Marketing | Agencies'', ''OpEx | Sales & Marketing | Events'',
     ''OpEx | Sales & Marketing | Software/Tools'',
     ''OpEx | General & Administrative | People'',
     ''OpEx | General & Administrative | Facilities'',
     ''OpEx | General & Administrative | Professional Services'',
     ''OpEx | General & Administrative | IT/Software'',
     ''OpEx | General & Administrative | Travel'',
     ''OpEx | General & Administrative | Other G&A'',
     ''OpEx | Research & Development | People'',
     ''OpEx | Research & Development | Contractors'',
     ''OpEx | Research & Development | Cloud/Compute'',
     ''OpEx | Research & Development | Labs/Prototyping'',
     ''OpEx | Research & Development | Other R&D'',
     ''Depreciation'', ''Amortization'',
     ''Other Operating | Grants/Subsidies'', ''Other Operating | Gains/Losses on Disposals'',
     ''Other Operating | Restructuring'',
     ''Operating Profit (EBIT) (derived)'',
     ''Below Operating | Net Interest'', ''Below Operating | FX Gains/Losses'',
     ''Below Operating | Associates/JVs'',
     ''Tax | Current'', ''Tax | Deferred'',
     ''Net Income (derived)'']"

text \<open>Every rule of \<open>LABEL_MAP\<close> has the form \<open>\b(alternative|...)\b\<close>. The accented
  letters are U+00E9 (233), U+00E8 (232), U+00FB (251) and U+00F4 (244).\<close>

definition word_rule :: "rx list \<Rightarrow> rx" where
  "word_rule rs = seqs [Bnd, Grp 1 (alts rs), Bnd]"

definition LABEL_MAP :: "(rx \<times> pystr) list" where
  "LABEL_MAP =
    [(word_rule [lit (u ''advertis''), lit (u ''marketing''), lit (u ''media''),
                 Seq (lit (u ''pub'')) (Opt (Grp 2 (Seq (lit (u ''licit'')) (one_of [101, 233]))))],
      u ''OpEx | Sales & Marketing | Media/Ads''),
     (word_rule [seqs [chr 103, Rep True 0 (\<lambda>c. c = 38 \<or> c = 32), chr 97],
                 seqs [lit (u ''frais''), Rep True 0 py_isspace, chr 103, one_of [233, 101],
                       chr 110, one_of [233, 101], lit (u ''raux'')],
                 lit (u ''administrative'')],
      u ''OpEx | General & Administrative | People''),
     (word_rule [lit (u ''r&d''), lit (u ''recherche''), lit (u ''entwicklung''),
                 lit (u ''research'')],
      u ''OpEx | Research & Development | People''),
     (word_rule [lit (u ''cost of sales''),
                 seqs [lit (u ''co''), one_of [117, 251], lit (u ''t des ventes'')],
                 lit (u ''cogs'')],
      u ''COGS | Other COGS''),
     (word_rule [lit (u ''materials''),
                 seqs [lit (u ''mati''), one_of [101, 232], lit (u ''res'')]],
      u ''COGS | Materials''),
     (word_rule [lit (u ''direct labor''),
                 seqs [lit (u ''main d''), Opt (chr 39), lit (u ''oeuvre'')],
                 lit (u ''personnel direct'')],
      u ''COGS | Direct Labor''),
     (word_rule [seqs [lit (u ''service''), Opt (chr 115), lit (u '' achet''),
                       one_of [233, 101], chr 115],
                 lit (u ''purchased services'')],
      u ''COGS | Purchased Services''),
     (word_rule [lit (u ''revenue''), lit (u ''chiffre d'' @ [39] @ u ''affaires''),
                 lit (u ''sales'')],
      u ''Revenue | Product''),
     (word_rule [lit (u ''depreciation''), lit (u ''amortissement technique'')],
      u ''Depreciation''),
     (word_rule [lit (u ''amortization''), lit (u ''amortissement incorporel'')],
      u ''Amortization''),
     (word_rule [seqs [lit (u ''taxe''), Opt (chr 115)],
                 seqs [lit (u ''imp''), one_of [111, 244], chr 116, Opt (chr 115)]],
      u ''Tax | Current'')]"

fun first_rule :: "(rx \<times> pystr) list \<Rightarrow> pystr \<Rightarrow> pystr option" where
  "first_rule [] low = None"
| "first_rule ((pattern, fixed) # rules) low =
     (if re_search pattern low \<noteq> None then Some fixed else first_rule rules low)"

definition normalize_label :: "pystr \<Rightarrow> pystr option" where
  "normalize_label label =
     (if label = [] then None else first_rule LABEL_MAP (lower label))"

section \<open>Classified rows\<close>

record row =
  company_name :: pystr
  fiscal_year :: pystr
  reporting_currency :: pystr
  base_currency :: pystr
  line_item :: pystr
  amount :: "pyfloat option"

text \<open>\<open>base_currency if base_currency and base_currency != "NONE" else ccy\<close>\<close>

definition resolve_base :: "pystr option \<Rightarrow> pystr \<Rightarrow> pystr" where
  "resolve_base base ccy =
     (case base of
        None \<Rightarrow> ccy
      | Some b \<Rightarrow> if b \<noteq> [] \<and> b \<noteq> u ''NONE'' then b else ccy)"

text \<open>A loop that appends the rows of each element and lets an exception escape.\<close>

fun collect :: "('a \<Rightarrow> error + 'b list) \<Rightarrow> 'a list \<Rightarrow> error + 'b list" where
  "collect f [] = Inr []"
| "collect f (x # xs) =
     (case f x of
        Inl e \<Rightarrow> Inl e
      | Inr ys \<Rightarrow> (case collect f xs of Inl e \<Rightarrow> Inl e | Inr zs \<Rightarrow> Inr (ys @ zs)))"

section \<open>The tabular extractor\<close>

text \<open>
  Decoding the workbook is left to \<open>pandas\<close>; the model starts from the sheets it
  returns: the column labels (strings) and the data rows, each a list of cells in column
  order. \<open>Path(fname).stem\<close> is computed by \<open>pathlib\<close>; the model takes its value
  as the argument \<open>stem\<close>.
\<close>

record dataframe =
  columns :: "pystr list"
  records :: "pyobj list list"

text \<open>\<open>r.get(key, default)\<close> on a data row; the key may be \<open>None\<close>.\<close>

definition series_get :: "pystr list \<Rightarrow> pyobj list \<Rightarrow> pystr option \<Rightarrow> pyobj \<Rightarrow> pyobj" where
  "series_get cs r key dflt =
     (case key of
        None \<Rightarrow> dflt
      | Some k \<Rightarrow> (case map_of (zip cs r) k of None \<Rightarrow> dflt | Some v \<Rightarrow> v))"

text \<open>The inner loop of \<open>col_like\<close>: the first column whose cleaned name contains \<open>k\<close>.\<close>

fun find_col :: "pystr \<Rightarrow> (pystr \<times> pystr) list \<Rightarrow> pystr option" where
  "find_col k [] = None"
| "find_col k ((c, orig) # rest) = (if contains c k then Some orig else find_col k rest)"

fun col_like_loop :: "(pystr \<times> pystr) list \<Rightarrow> pystr list \<Rightarrow> pystr option" where
  "col_like_loop cs [] = None"
| "col_like_loop cs (k # ks) =
     (case find_col k cs of Some orig \<Rightarrow> Some orig | None \<Rightarrow> col_like_loop cs ks)"

definition col_like :: "pystr list \<Rightarrow> pystr list \<Rightarrow> pystr option" where
  "col_like df_columns keys =
     col_like_loop (zip (map (\<lambda>c. lower (strip c)) df_columns) df_columns) keys"

definition label_keys :: "pystr list" where
  "label_keys = map u [''label'', ''item'', ''intitul'', ''description'', ''account'']"

definition amount_keys :: "pystr list" where
  "amount_keys = map u [''amount'', ''montant'', ''value'', ''valeur'', ''total'']"

definition year_keys :: "pystr list" where
  "year_keys = map u [''year'', ''exercice'', ''fy'', ''fiscal'']"

definition currency_keys :: "pystr list" where
  "currency_keys = map u [''curr'', ''devise'', ''currency'']"

text \<open>\<open>str(r.get(c, "")) if c else ""\<close>\<close>

definition cell_text :: "pystr list \<Rightarrow> pyobj list \<Rightarrow> pystr option \<Rightarrow> pystr" where
  "cell_text cs r c =
     (case c of
        None \<Rightarrow> []
      | Some k \<Rightarrow> if k = [] then [] else py_str (series_get cs r c (PStr [])))"

text \<open>\<open>str(r.get(c_label, "") or "")\<close>\<close>

definition row_label :: "pystr list \<Rightarrow> pyobj list \<Rightarrow> pystr option \<Rightarrow> pystr" where
  "row_label cs r c_label =
     (let v = series_get cs r c_label (PStr []) in py_str (if truthy v then v else PStr []))"

definition excel_row ::
  "pystr \<Rightarrow> pystr option \<Rightarrow> pystr list \<Rightarrow> pystr option \<Rightarrow> pystr option \<Rightarrow> pystr option
     \<Rightarrow> pystr option \<Rightarrow> pyobj list \<Rightarrow> error + row list" where
  "excel_row stem base cs c_label c_amt c_year c_ccy r =
     (let label = row_label cs r c_label
      in case normalize_label label of
           None \<Rightarrow> Inr []
         | Some fixed \<Rightarrow>
             if fixed = [] then Inr []
             else case try_number (series_get cs r c_amt PNone) of
                    Inl e \<Rightarrow> Inl e
                  | Inr amt \<Rightarrow>
                      Inr [\<lparr>company_name = stem,
                            fiscal_year = cell_text cs r c_year,
                            reporting_currency = cell_text cs r c_ccy,
                            base_currency = resolve_base base (cell_text cs r c_ccy),
                            line_item = fixed,
                            amount = amt\<rparr>])"

definition excel_sheet :: "pystr \<Rightarrow> pystr option \<Rightarrow> dataframe \<Rightarrow> error + row list" where
  "excel_sheet stem base df =
     (let c_label = col_like (columns df) label_keys;
          c_amt = col_like (columns df) amount_keys;
          c_year = col_like (columns df) year_keys;
          c_ccy = col_like (columns df) currency_keys
      in collect (excel_row stem base (columns df) c_label c_amt c_year c_ccy) (records df))"

definition extract_from_excel :: "dataframe list \<Rightarrow> pystr \<Rightarrow> pystr option \<Rightarrow> error + row list" where
  "extract_from_excel sheets stem base = collect (excel_sheet stem base) sheets"

section \<open>The text extractor\<close>

text \<open>Case-insensitive literals (\<open>re.I\<close>), compared through the lower-case table.\<close>

definition ichr :: "nat \<Rightarrow> rx" where
  "ichr c = Cls (\<lambda>x. py_lower_char x = py_lower_char c)"

definition ilit :: "pystr \<Rightarrow> rx" where
  "ilit w = foldr (\<lambda>c r. Seq (ichr c) r) w Eps"

text \<open>The patterns \<open>\bUSD|\$|US\$|dollars?\b\<close>, \<open>\bEUR|\<euro>\b\<close> (the euro sign is
  U+20AC, 8364) and \<open>\bGBP|\<pounds>\b\<close> (the pound sign is U+00A3, 163).\<close>

definition usd_rx :: rx where
  "usd_rx = alts [Seq Bnd (ilit (u ''USD'')), chr 36, Seq (ilit (u ''US'')) (chr 36),
                  seqs [ilit (u ''dollar''), Opt (ichr 115), Bnd]]"

definition eur_rx :: rx where
  "eur_rx = alts [Seq Bnd (ilit (u ''EUR'')), Seq (chr 8364) Bnd]"

definition gbp_rx :: rx where
  "gbp_rx = alts [Seq Bnd (ilit (u ''GBP'')), Seq (chr 163) Bnd]"

definition rep_ccy :: "pystr \<Rightarrow> pystr" where
  "rep_ccy text =
     (if re_search usd_rx text \<noteq> None then u ''USD''
      else if re_search eur_rx text \<noteq> None then u ''EUR''
      else if re_search gbp_rx text \<noteq> None then u ''GBP''
      else [])"

text \<open>The pattern \<open>(.*?)[\s:\-]+([\(\)\-\d\s,\.]+)$\<close>.\<close>

definition line_rx :: rx where
  "line_rx = seqs [Grp 1 (Rep False 0 (\<lambda>c. c \<noteq> 10)),
                   Rep True 1 (\<lambda>c. py_isspace c \<or> c = 58 \<or> c = 45),
                   Grp 2 (Rep True 1 (\<lambda>c. c = 40 \<or> c = 41 \<or> c = 45 \<or> py_isdecimal c
                                             \<or> py_isspace c \<or> c = 44 \<or> c = 46)),
                   Eos]"

text \<open>\<open>str.splitlines()\<close>: a line ends at \<open>\n\<close>, \<open>\r\<close>, \<open>\r\n\<close>, \<open>\v\<close>, \<open>\f\<close>,
  U+001C to U+001E, U+0085, U+2028 or U+2029.\<close>

definition is_linebreak :: "nat \<Rightarrow> bool" where
  "is_linebreak c = ((10 \<le> c \<and> c \<le> 13) \<or> (28 \<le> c \<and> c \<le> 30) \<or> c = 133
     \<or> c = 8232 \<or> c = 8233)"

fun splitlines_from :: "pystr \<Rightarrow> pystr \<Rightarrow> pystr list" where
  "splitlines_from cur [] = (if cur = [] then [] else [rev cur])"
| "splitlines_from cur [c] =
     (if is_linebreak c then [rev cur] else [rev (c # cur)])"
| "splitlines_from cur (c # d # cs) =
     (if c = 13 \<and> d = 10 then rev cur # splitlines_from [] cs
      else if is_linebreak c then rev cur # splitlines_from [] (d # cs)
      else splitlines_from (c # cur) (d # cs))"

definition splitlines :: "pystr \<Rightarrow> pystr list" where
  "splitlines s = splitlines_from [] s"

definition pdf_line :: "pystr \<Rightarrow> pystr option \<Rightarrow> pystr \<Rightarrow> pystr \<Rightarrow> error + row list" where
  "pdf_line stem base ccy line0 =
     (let line = strip line0
      in if line = [] then Inr []
         else case re_search line_rx line of
                None \<Rightarrow> Inr []
              | Some m \<Rightarrow>
                  (case normalize_label (group m 1) of
                     None \<Rightarrow> Inr []
                   | Some fixed \<Rightarrow>
                       if fixed = [] then Inr []
                       else case try_number (PStr (group m 2)) of
                              Inl e \<Rightarrow> Inl e
                            | Inr None \<Rightarrow> Inr []
                            | Inr (Some amt) \<Rightarrow>
                                Inr [\<lparr>company_name = stem,
                                      fiscal_year = [],
                                      reporting_currency = ccy,
                                      base_currency = resolve_base base ccy,
                                      line_item = fixed,
                                      amount = Some amt\<rparr>]))"

text \<open>Text extraction is left to \<open>pdfplumber\<close>; the model starts from the pages' texts
  (\<open>None\<close> or empty for a page without text), which the code joins by newlines.\<close>

fun join_pages :: "pystr option list \<Rightarrow> pystr" where
  "join_pages [] = []"
| "join_pages [p] = (case p of None \<Rightarrow> [] | Some t \<Rightarrow> t)"
| "join_pages (p # ps) = (case p of None \<Rightarrow> [] | Some t \<Rightarrow> t) @ [10] @ join_pages ps"

definition pdf_text_rows :: "pystr \<Rightarrow> pystr \<Rightarrow> pystr option \<Rightarrow> error + row list" where
  "pdf_text_rows text stem base = collect (pdf_line stem base (rep_ccy text)) (splitlines text)"

definition extract_from_pdf :: "pystr option list \<Rightarrow> pystr \<Rightarrow> pystr option \<Rightarrow> error + row list" where
  "extract_from_pdf pages stem base = pdf_text_rows (join_pages pages) stem base"

section \<open>The aggregator\<close>

record out_row = row +
  percent_of_revenue :: "pyfloat option"

text \<open>An output row shows a blank where \<open>amount\<close> or \<open>percent_of_revenue\<close> is \<open>None\<close>.
  \<open>by_co\<close> is a dictionary in insertion order: an association list with distinct keys.\<close>

definition company_key :: "row \<Rightarrow> pystr" where
  "company_key r = (if company_name r \<noteq> [] then company_name r else u ''Company'')"

fun setdefault_append :: "(pystr \<times> row list) list \<Rightarrow> pystr \<Rightarrow> row \<Rightarrow> (pystr \<times> row list) list" where
  "setdefault_append [] k r = [(k, [r])]"
| "setdefault_append ((k', rs) # d) k r =
     (if k' = k then (k', rs @ [r]) # d else (k', rs) # setdefault_append d k r)"

definition by_company :: "row list \<Rightarrow> (pystr \<times> row list) list" where
  "by_company rows = foldl (\<lambda>d r. setdefault_append d (company_key r) r) [] rows"

text \<open>\<open>sum(float(i.get("amount") or 0) for i in items if ...startswith("Revenue"))\<close>\<close>

definition amount_or_zero :: "row \<Rightarrow> pyfloat" where
  "amount_or_zero i = (case amount i of None \<Rightarrow> Fin 0 | Some a \<Rightarrow> if ftruthy a then a else Fin 0)"

definition is_revenue :: "row \<Rightarrow> bool" where
  "is_revenue i = startswith (line_item i) (u ''Revenue'')"

definition total_rev :: "row list \<Rightarrow> pyfloat" where
  "total_rev items = foldl fadd (Fin 0) (map amount_or_zero (filter is_revenue items))"

text \<open>\<open>{i["line_item"]: i for i in items}\<close>: a later row replaces an earlier one.\<close>

definition lookup :: "row list \<Rightarrow> pystr \<rightharpoonup> row" where
  "lookup items = foldl (\<lambda>m i. m(line_item i \<mapsto> i)) Map.empty items"

definition percent :: "pyfloat \<Rightarrow> pyfloat option \<Rightarrow> error + pyfloat option" where
  "percent tot amt =
     (case amt of
        None \<Rightarrow> Inr None
      | Some a \<Rightarrow> if ftruthy tot
                  then (case fdiv a tot of Inl e \<Rightarrow> Inl e | Inr q \<Rightarrow> Inr (Some q))
                  else Inr None)"

definition out_line :: "row \<Rightarrow> pyfloat \<Rightarrow> (pystr \<rightharpoonup> row) \<Rightarrow> pystr \<Rightarrow> error + out_row list" where
  "out_line meta tot lk line =
     (let amt = (case lk line of None \<Rightarrow> None | Some i \<Rightarrow> amount i)
      in case percent tot amt of
           Inl e \<Rightarrow> Inl e
         | Inr perc \<Rightarrow>
             Inr [\<lparr>company_name = company_name meta,
                   fiscal_year = fiscal_year meta,
                   reporting_currency = reporting_currency meta,
                   base_currency = (if base_currency meta \<noteq> [] then base_currency meta
                                    else reporting_currency meta),
                   line_item = line,
                   amount = amt,
                   percent_of_revenue = perc\<rparr>])"

text \<open>\<open>re.sub(r'[\\/?*\[\]:]', '_', company)[:31] or "Company"\<close>\<close>

definition safe_name :: "pystr \<Rightarrow> pystr" where
  "safe_name company =
     (let t = take 31 (map (\<lambda>c. if c \<in> {92, 47, 63, 42, 91, 93, 58} then 95 else c) company)
      in if t = [] then u ''Company'' else t)"

definition company_sheet :: "pystr \<times> row list \<Rightarrow> error + (pystr \<times> out_row list) list" where
  "company_sheet entry =
     (case snd entry of
        [] \<Rightarrow> Inl IndexError
      | meta # rest \<Rightarrow>
          (case collect (out_line meta (total_rev (snd entry)) (lookup (snd entry))) FIXED_ROWS of
             Inl e \<Rightarrow> Inl e
           | Inr out \<Rightarrow> Inr [(safe_name (fst entry), out)]))"



section \<open>Specification-side predicates\<close>

text \<open>The shape that \<open>number_rx\<close> accepts, written without the matcher: an optional
  minus sign, digits, optionally a point and digits, and then the end of the string or
  one final newline (which \<open>$\<close> lets pass).\<close>

definition number_shape :: "pystr \<Rightarrow> bool" where
  "number_shape s =
     (let body = (if startswith s [45] then tl s else s);
          ip = takeWhile py_isdecimal body;
          r = dropWhile py_isdecimal body
      in ip \<noteq> [] \<and>
         (r = [] \<or> r = [10] \<or>
          (startswith r [46] \<and> takeWhile py_isdecimal (tl r) \<noteq> []
             \<and> (dropWhile py_isdecimal (tl r) = [] \<or> dropWhile py_isdecimal (tl r) = [10]))))"

text \<open>The part of the shape after the integer digits.\<close>

definition frac_ok :: "pystr \<Rightarrow> bool" where
  "frac_ok r = (r = [] \<or> r = [10] \<or>
          (startswith r [46] \<and> takeWhile py_isdecimal (tl r) \<noteq> []
             \<and> (dropWhile py_isdecimal (tl r) = [] \<or> dropWhile py_isdecimal (tl r) = [10])))"

text \<open>The string that \<open>try_number\<close> tests: trimmed, without spaces, commas,
  non-breaking spaces and parentheses.\<close>

definition cleaned :: "pyobj \<Rightarrow> pystr" where
  "cleaned x = remove_char 41 (remove_char 40
       (remove_char 160 (remove_char 44 (remove_char 32 (strip (py_str x))))))"

text \<open>The cleaned column name, \<open>str(c).strip().lower()\<close>.\<close>

definition clean_name :: "pystr \<Rightarrow> pystr" where
  "clean_name c = lower (strip c)"

text \<open>Column selection as the specification words it: the first column, in column order,
  whose cleaned name contains any of the role's synonyms.\<close>

definition first_synonym_column :: "pystr list \<Rightarrow> pystr list \<Rightarrow> pystr option" where
  "first_synonym_column df_columns keys =
     find (\<lambda>c. \<exists>k \<in> set keys. contains (clean_name c) k) df_columns"

text \<open>The output row of a line item as the specification describes it, for the rows
  \<open>items\<close> of one company: the company fields of the first row, the amount of the last
  row with that line item, and that amount divided by the sum of the revenue rows.\<close>

definition report_row :: "row list \<Rightarrow> pystr \<Rightarrow> out_row" where
  "report_row items line =
     (let amt = (case filter (\<lambda>i. line_item i = line) items of
                   [] \<Rightarrow> None | x # xs \<Rightarrow> amount (last (x # xs)));
          tot = foldl fadd (Fin 0)
                  (map (\<lambda>i. case amount i of None \<Rightarrow> Fin 0 | Some a \<Rightarrow> a)
                     (filter (\<lambda>i. startswith (line_item i) (u ''Revenue'')) items))
      in \<lparr>company_name = company_name (hd items),
          fiscal_year = fiscal_year (hd items),
          reporting_currency = reporting_currency (hd items),
          base_currency = (if base_currency (hd items) \<noteq> [] then base_currency (hd items)
                           else reporting_currency (hd items)),
          line_item = line,
          amount = amt,
          percent_of_revenue =
            (case amt of None \<Rightarrow> None
             | Some a \<Rightarrow> if tot = Fin 0 then None else Some (fquot a tot))\<rparr>)"

text \<open>Example rows: one company with two rows for the same revenue item and one cost
  row.\<close>

definition acme_row :: "string \<Rightarrow> rat \<Rightarrow> row" where
  "acme_row item v =
     \<lparr>company_name = u ''acme'', fiscal_year = [], reporting_currency = u ''USD'',
      base_currency = u ''USD'', line_item = u item, amount = Some (Fin v)\<rparr>"

definition acme_rows :: "row list" where
  "acme_rows = [acme_row ''Revenue | Product'' 250, acme_row ''COGS | Materials'' 250,
                acme_row ''Revenue | Product'' 750]"

text \<open>Every position of a text, as the reversed text before it and the text after it.\<close>

fun splits_from :: "pystr \<Rightarrow> pystr \<Rightarrow> (pystr \<times> pystr) list" where
  "splits_from pre [] = [(pre, [])]"
| "splits_from pre (c # cs) = (pre, c # cs) # splits_from (c # pre) cs"

definition splits :: "pystr \<Rightarrow> (pystr \<times> pystr) list" where
  "splits s = splits_from [] s"

text \<open>\<open>istarts w s\<close>: \<open>s\<close> starts with \<open>w\<close>, letter case ignored. A word starts (or ends)
  at a position when exactly one of the two neighbouring characters is a word character,
  which is what \<open>\b\<close> tests.\<close>

fun istarts :: "pystr \<Rightarrow> pystr \<Rightarrow> bool" where
  "istarts [] s = True"
| "istarts (a # w) [] = False"
| "istarts (a # w) (c # cs) = (py_lower_char c = py_lower_char a \<and> istarts w cs)"






section \<open>The matcher: states reached by a pattern\<close>

lemma length_runs: "length (runs p pre post) = Suc (length (takeWhile p post))"
  by (induction post arbitrary: pre) auto

lemma nth_runs:
  "k \<le> length (takeWhile p post) \<Longrightarrow> runs p pre post ! k = (rev (take k post) @ pre, drop k post)"
proof (induction post arbitrary: pre k)
  case Nil
  then show ?case by simp
next
  case (Cons c cs)
  show ?case
  proof (cases k)
    case 0
    then show ?thesis by simp
  next
    case (Suc j)
    with Cons.prems have pc: "p c" and j: "j \<le> length (takeWhile p cs)"
      by (auto split: if_splits)
    from Cons.IH[OF j] pc Suc show ?thesis by simp
  qed
qed

lemma in_drop_runs:
  "(a, b) \<in> set (drop n (runs p pre post)) \<longleftrightarrow>
     (\<exists>k. n \<le> k \<and> k \<le> length (takeWhile p post) \<and> a = rev (take k post) @ pre \<and> b = drop k post)"
proof
  assume "(a, b) \<in> set (drop n (runs p pre post))"
  then obtain i where i: "i < length (drop n (runs p pre post))"
    and e: "drop n (runs p pre post) ! i = (a, b)"
    by (auto simp: in_set_conv_nth)
  from i have le: "n + i \<le> length (takeWhile p post)" by (simp add: length_runs)
  from i e have "runs p pre post ! (n + i) = (a, b)" by simp
  with nth_runs[OF le, of pre] have "a = rev (take (n + i) post) @ pre \<and> b = drop (n + i) post" by simp
  with le show "\<exists>k. n \<le> k \<and> k \<le> length (takeWhile p post) \<and> a = rev (take k post) @ pre \<and> b = drop k post"
    by (intro exI[of _ "n + i"]) simp
next
  assume "\<exists>k. n \<le> k \<and> k \<le> length (takeWhile p post) \<and> a = rev (take k post) @ pre \<and> b = drop k post"
  then obtain k where k: "n \<le> k" "k \<le> length (takeWhile p post)"
    and ab: "a = rev (take k post) @ pre" "b = drop k post" by blast
  have "k - n < length (drop n (runs p pre post))" using k by (simp add: length_runs)
  moreover have "drop n (runs p pre post) ! (k - n) = (a, b)"
    using k ab nth_runs[OF k(2), of pre] by (simp add: length_runs)
  ultimately show "(a, b) \<in> set (drop n (runs p pre post))"
    by (metis nth_mem)
qed

lemma in_rmatch_Rep:
  "(a, b, g') \<in> set (rmatch (Rep gr n p) (pre, post, g)) \<longleftrightarrow>
     g' = g \<and> (\<exists>k. n \<le> k \<and> k \<le> length (takeWhile p post) \<and> a = rev (take k post) @ pre \<and> b = drop k post)"
  using in_drop_runs[of a b n p pre post] by (auto simp: Let_def)

lemma in_rmatch_Seq:
  "st'' \<in> set (rmatch (Seq a b) st) \<longleftrightarrow>
     (\<exists>st'. st' \<in> set (rmatch a st) \<and> st'' \<in> set (rmatch b st'))"
  by auto


lemma in_rmatch_Opt:
  "st' \<in> set (rmatch (Opt a) st) \<longleftrightarrow> st' \<in> set (rmatch a st) \<or> st' = st"
  by auto

lemma in_rmatch_Grp:
  "st' \<in> set (rmatch (Grp k r) (pre, post, g)) \<longleftrightarrow>
     (\<exists>a c g'. (a, c, g') \<in> set (rmatch r (pre, post, g)) \<and>
        st' = (a, c, (k, rev (take (length a - length pre) a)) # g'))"
  by (auto simp: image_iff split: prod.splits)

lemma in_rmatch_Eos:
  "st' \<in> set (rmatch Eos (pre, post, g)) \<longleftrightarrow> (post = [] \<or> post = [10]) \<and> st' = (pre, post, g)"
  by auto

lemma in_rmatch_Bos:
  "st' \<in> set (rmatch Bos (pre, post, g)) \<longleftrightarrow> pre = [] \<and> st' = (pre, post, g)"
  by auto


lemma in_rmatch_Eps: "st' \<in> set (rmatch Eps st) \<longleftrightarrow> st' = st"
  by auto

lemma in_rmatch_Cls:
  "st' \<in> set (rmatch (Cls p) (pre, post, g)) \<longleftrightarrow> (\<exists>c cs. post = c # cs \<and> p c \<and> st' = (c # pre, cs, g))"
  by (auto split: list.splits)

lemma run_stop:
  "k \<le> length (takeWhile p b) \<Longrightarrow> drop k b = [] \<or> \<not> p (hd (drop k b)) \<Longrightarrow>
     takeWhile p b = take k b \<and> dropWhile p b = drop k b"
proof (induction b arbitrary: k)
  case Nil
  then show ?case by simp
next
  case (Cons c cs)
  show ?case
  proof (cases k)
    case 0
    with Cons.prems show ?thesis by auto
  next
    case (Suc j)
    with Cons.prems have pc: "p c" and j: "j \<le> length (takeWhile p cs)"
      by (auto split: if_splits)
    from Cons.prems(2) Suc have "drop j cs = [] \<or> \<not> p (hd (drop j cs))" by simp
    from Cons.IH[OF j this] pc Suc show ?thesis by simp
  qed
qed

lemma run_all: "k \<le> length (takeWhile p b) \<Longrightarrow> list_all p (take k b)"
proof (induction b arbitrary: k)
  case Nil
  then show ?case by simp
next
  case (Cons c cs)
  then show ?case by (cases k) (auto split: if_splits)
qed

section \<open>The number pattern and the shape it accepts\<close>

lemma frac_ok_stop: "frac_ok r \<Longrightarrow> r = [] \<or> \<not> py_isdecimal (hd r)"
  by (cases r) (auto simp: frac_ok_def startswith_def py_isdecimal_def)

declare rmatch.simps [simp del]

lemma match_end:
  "st' \<in> set (rmatch (Seq Eos Eps) (pre, b, g)) \<Longrightarrow> b = [] \<or> b = [10]"
  unfolding in_rmatch_Seq in_rmatch_Eps by (auto simp: in_rmatch_Eos)

lemma match_fraction:
  assumes "st' \<in> set (rmatch (Seq (Opt (Grp 1 (Seq (chr 46) (Rep True 1 py_isdecimal)))) (Seq Eos Eps)) (pre, b, g))"
  shows "frac_ok b"
proof -
  from assms obtain st1 where
    1: "st1 \<in> set (rmatch (Opt (Grp 1 (Seq (chr 46) (Rep True 1 py_isdecimal)))) (pre, b, g))"
    and 2: "st' \<in> set (rmatch (Seq Eos Eps) st1)"
    unfolding in_rmatch_Seq by blast
  from 1 consider (skip) "st1 = (pre, b, g)"
    | (frac) "st1 \<in> set (rmatch (Grp 1 (Seq (chr 46) (Rep True 1 py_isdecimal))) (pre, b, g))"
    unfolding in_rmatch_Opt by blast
  then show ?thesis
  proof cases
    case skip
    with 2 have "b = [] \<or> b = [10]" by (simp add: match_end)
    then show ?thesis by (auto simp: frac_ok_def)
  next
    case frac
    then obtain a c g' where
      in1: "(a, c, g') \<in> set (rmatch (Seq (chr 46) (Rep True 1 py_isdecimal)) (pre, b, g))"
      and st1: "st1 = (a, c, (1, rev (take (length a - length pre) a)) # g')"
      unfolding in_rmatch_Grp by blast
    from in1 obtain t where b: "b = 46 # t"
      and in2: "(a, c, g') \<in> set (rmatch (Rep True 1 py_isdecimal) (46 # pre, t, g))"
      unfolding in_rmatch_Seq chr_def in_rmatch_Cls by blast
    from in2 obtain k where k: "1 \<le> k" "k \<le> length (takeWhile py_isdecimal t)" and c: "c = drop k t"
      unfolding in_rmatch_Rep by blast
    from 2 st1 have e: "c = [] \<or> c = [10]" by (simp add: match_end)
    then have "drop k t = [] \<or> \<not> py_isdecimal (hd (drop k t))"
      using c by (auto simp: py_isdecimal_def)
    from run_stop[OF k(2) this] have tw: "takeWhile py_isdecimal t = take k t"
      and dw: "dropWhile py_isdecimal t = drop k t" by simp_all
    from k have "take k t \<noteq> []" by auto
    with tw dw e c b show ?thesis by (simp add: frac_ok_def startswith_def)
  qed
qed

lemma match_digits:
  assumes "st' \<in> set (rmatch (Seq (Rep True 1 py_isdecimal)
              (Seq (Opt (Grp 1 (Seq (chr 46) (Rep True 1 py_isdecimal)))) (Seq Eos Eps))) (pre, b, g))"
  shows "takeWhile py_isdecimal b \<noteq> [] \<and> frac_ok (dropWhile py_isdecimal b)"
proof -
  from assms obtain a c g' where
    1: "(a, c, g') \<in> set (rmatch (Rep True 1 py_isdecimal) (pre, b, g))"
    and 2: "st' \<in> set (rmatch (Seq (Opt (Grp 1 (Seq (chr 46) (Rep True 1 py_isdecimal)))) (Seq Eos Eps)) (a, c, g'))"
    unfolding in_rmatch_Seq by (metis prod_cases3)
  from 1 obtain k where k: "1 \<le> k" "k \<le> length (takeWhile py_isdecimal b)" and c: "c = drop k b"
    unfolding in_rmatch_Rep by blast
  from match_fraction[OF 2] have f: "frac_ok c" .
  from frac_ok_stop[OF f] c have "drop k b = [] \<or> \<not> py_isdecimal (hd (drop k b))" by simp
  from run_stop[OF k(2) this] have tw: "takeWhile py_isdecimal b = take k b"
    and dw: "dropWhile py_isdecimal b = drop k b" by simp_all
  from k have "take k b \<noteq> []" by auto
  with tw dw f c show ?thesis by simp
qed

lemma number_rx_shape:
  assumes "re_match number_rx s \<noteq> None"
  shows "number_shape s"
proof -
  let ?R = "Seq (Rep True 1 py_isdecimal)
              (Seq (Opt (Grp 1 (Seq (chr 46) (Rep True 1 py_isdecimal)))) (Seq Eos Eps))"
  from assms obtain st' where "st' \<in> set (rmatch number_rx ([], s, []))"
    by (auto simp: re_match_def split: list.splits)
  then have "st' \<in> set (rmatch (Seq (Opt (chr 45)) ?R) ([], s, []))"
    by (simp add: number_rx_def seqs_def in_rmatch_Seq in_rmatch_Bos)
  then obtain st1 where 1: "st1 \<in> set (rmatch (Opt (chr 45)) ([], s, []))"
    and 2: "st' \<in> set (rmatch ?R st1)"
    unfolding in_rmatch_Seq by blast
  from 1 consider (plain) "st1 = ([], s, [])" | (minus) t where "s = 45 # t" "st1 = ([45], t, [])"
    unfolding in_rmatch_Opt chr_def in_rmatch_Cls by blast
  then show ?thesis
  proof cases
    case plain
    with 2 have d: "takeWhile py_isdecimal s \<noteq> [] \<and> frac_ok (dropWhile py_isdecimal s)"
      by (simp add: match_digits)
    then have "\<not> startswith s [45]"
      by (cases s) (auto simp: startswith_def py_isdecimal_def)
    with d show ?thesis by (simp add: number_shape_def frac_ok_def Let_def)
  next
    case minus
    with 2 have "takeWhile py_isdecimal t \<noteq> [] \<and> frac_ok (dropWhile py_isdecimal t)"
      by (simp add: match_digits)
    with minus show ?thesis by (simp add: number_shape_def frac_ok_def Let_def startswith_def)
  qed
qed

section \<open>Reading a float from a string of that shape\<close>

lemma number_shape_decomp:
  assumes "number_shape s"
  shows "\<exists>sg ip fr nl. s = sg @ ip @ fr @ nl \<and> (sg = [] \<or> sg = [45])
           \<and> ip \<noteq> [] \<and> (\<forall>c \<in> set ip. py_isdecimal c)
           \<and> (fr = [] \<or> (\<exists>fs. fr = 46 # fs \<and> fs \<noteq> [] \<and> (\<forall>c \<in> set fs. py_isdecimal c)))
           \<and> (nl = [] \<or> nl = [10])"
proof -
  define body where "body = (if startswith s [45] then tl s else s)"
  define sg where "sg = (if startswith s [45] then [45] else ([]::pystr))"
  define ip where "ip = takeWhile py_isdecimal body"
  define r where "r = dropWhile py_isdecimal body"
  have s: "s = sg @ body"
    by (cases s) (auto simp: body_def sg_def startswith_def)
  have body: "body = ip @ r" by (simp add: ip_def r_def)
  have ipd: "\<forall>c \<in> set ip. py_isdecimal c" unfolding ip_def by (auto dest: set_takeWhileD)
  from assms have ip: "ip \<noteq> []"
    and r: "r = [] \<or> r = [10] \<or>
          (startswith r [46] \<and> takeWhile py_isdecimal (tl r) \<noteq> []
             \<and> (dropWhile py_isdecimal (tl r) = [] \<or> dropWhile py_isdecimal (tl r) = [10]))"
    unfolding number_shape_def Let_def body_def[symmetric] ip_def[symmetric] r_def[symmetric]
    by blast+
  have "\<exists>fr nl. r = fr @ nl \<and> (nl = [] \<or> nl = [10])
          \<and> (fr = [] \<or> (\<exists>fs. fr = 46 # fs \<and> fs \<noteq> [] \<and> (\<forall>c \<in> set fs. py_isdecimal c)))"
  proof -
    from r consider "r = []" | "r = [10]"
      | "startswith r [46]" "takeWhile py_isdecimal (tl r) \<noteq> []"
        "dropWhile py_isdecimal (tl r) = [] \<or> dropWhile py_isdecimal (tl r) = [10]"
      by blast
    then show ?thesis
    proof cases
      case 1
      then show ?thesis by simp
    next
      case 2
      then have "r = [] @ [10]" by simp
      then show ?thesis by blast
    next
      case 3
      from 3(1) obtain t where rt: "r = 46 # t" by (cases r) (auto simp: startswith_def)
      let ?fs = "takeWhile py_isdecimal t"
      let ?nl = "dropWhile py_isdecimal t"
      have "r = (46 # ?fs) @ ?nl" using rt by simp
      moreover have "?nl = [] \<or> ?nl = [10]" using 3(3) rt by simp
      moreover have "?fs \<noteq> []" using 3(2) rt by simp
      moreover have "\<forall>c \<in> set ?fs. py_isdecimal c" by (auto dest: set_takeWhileD)
      ultimately show ?thesis by blast
    qed
  qed
  then obtain fr nl where rr: "r = fr @ nl" and nl: "nl = [] \<or> nl = [10]"
    and fr: "fr = [] \<or> (\<exists>fs. fr = 46 # fs \<and> fs \<noteq> [] \<and> (\<forall>c \<in> set fs. py_isdecimal c))"
    by blast
  have "s = sg @ ip @ fr @ nl" using s body rr by simp
  moreover have "sg = [] \<or> sg = [45]" by (simp add: sg_def)
  ultimately show ?thesis using ip ipd fr nl by blast
qed

lemma digit_not_space: "py_isdecimal c \<Longrightarrow> \<not> py_isspace c"
  by (auto simp: py_isdecimal_def py_isspace_def)

lemma strip_keep:
  assumes "x \<noteq> []" "\<not> py_isspace (hd x)" "\<not> py_isspace (last x)" "\<forall>c \<in> set nl. py_isspace c"
  shows "strip (x @ nl) = x"
proof -
  from assms(1,2) have 1: "dropWhile py_isspace (x @ nl) = x @ nl"
    by (cases x) auto
  have 2: "dropWhile py_isspace (rev nl @ rev x) = dropWhile py_isspace (rev x)"
    using assms(4) by (intro dropWhile_append2) simp
  from assms(1,3) have 3: "dropWhile py_isspace (rev x) = rev x"
    by (cases x rule: rev_cases) auto
  from 1 2 3 show ?thesis by (simp add: strip_def)
qed

lemma parse_unsigned_digits:
  assumes "ip \<noteq> []" "\<forall>c \<in> set ip. py_isdecimal c"
    and "fr = [] \<or> (\<exists>fs. fr = 46 # fs \<and> fs \<noteq> [] \<and> (\<forall>c \<in> set fs. py_isdecimal c))"
  shows "\<exists>q. parse_unsigned (ip @ fr) = Some q"
proof -
  have no46: "\<forall>c \<in> set ip. c \<noteq> 46" using assms(2) by (auto simp: py_isdecimal_def)
  from assms(3) have tw: "takeWhile (\<lambda>c. c \<noteq> 46) (ip @ fr) = ip"
    using no46 by (auto simp: takeWhile_append2 takeWhile_eq_all_conv)
  from assms(3) have dw: "dropWhile (\<lambda>c. c \<noteq> 46) (ip @ fr) = fr"
    using no46 by auto
  from assms show ?thesis
    unfolding parse_unsigned_def tw dw Let_def
    by (auto simp: list_all_iff)
qed

lemma number_shape_float:
  assumes "number_shape s"
  shows "\<exists>q. py_float s = Inr (to_binary64 q)"
proof -
  from number_shape_decomp[OF assms] obtain sg ip fr nl where
    s: "s = sg @ ip @ fr @ nl" and sg: "sg = [] \<or> sg = [45]"
    and ip: "ip \<noteq> []" and ipd: "\<forall>c \<in> set ip. py_isdecimal c"
    and fr: "fr = [] \<or> (\<exists>fs. fr = 46 # fs \<and> fs \<noteq> [] \<and> (\<forall>c \<in> set fs. py_isdecimal c))"
    and nl: "nl = [] \<or> nl = [10]" by blast
  let ?x = "sg @ ip @ fr"
  have x: "s = ?x @ nl" using s by simp
  have x1: "?x \<noteq> []" using ip by simp
  have hdx: "\<not> py_isspace (hd ?x)"
    using sg ip ipd by (cases ip) (auto simp: py_isspace_def dest: digit_not_space)
  have lastx: "\<not> py_isspace (last ?x)"
  proof -
    from fr show ?thesis
    proof
      assume "fr = []"
      then have "last ?x = last ip" using ip by simp
      moreover have "last ip \<in> set ip" using ip by simp
      ultimately show ?thesis using ipd digit_not_space by auto
    next
      assume "\<exists>fs. fr = 46 # fs \<and> fs \<noteq> [] \<and> (\<forall>c \<in> set fs. py_isdecimal c)"
      then obtain fs where f: "fr = 46 # fs" "fs \<noteq> []" "\<forall>c \<in> set fs. py_isdecimal c" by blast
      then have "last ?x = last fs" by simp
      moreover have "last fs \<in> set fs" using f by simp
      ultimately show ?thesis using f digit_not_space by auto
    qed
  qed
  have nls: "\<forall>c \<in> set nl. py_isspace c" using nl by (auto simp: py_isspace_def)
  have st: "strip s = ?x" unfolding x by (rule strip_keep[OF x1 hdx lastx nls])
  have bd: "(if startswith ?x [45] \<or> startswith ?x [43] then tl ?x else ?x) = ip @ fr"
    using sg ip ipd by (cases ip) (auto simp: startswith_def py_isdecimal_def)
  from parse_unsigned_digits[OF ip ipd fr] obtain q where q: "parse_unsigned (ip @ fr) = Some q" ..
  show ?thesis
    unfolding py_float_def st Let_def bd q by auto
qed

section \<open>Strings of the shape match the pattern\<close>








section \<open>The number parser never raises\<close>

lemma try_number_Inr: "\<exists>r. try_number x = Inr r"
proof (cases "x = PNone \<or> re_match number_rx (cleaned x) = None")
  case True
  then show ?thesis by (auto simp: try_number_def cleaned_def Let_def)
next
  case False
  then have "number_shape (cleaned x)" by (simp add: number_rx_shape)
  from number_shape_float[OF this] obtain q where "py_float (cleaned x) = Inr (to_binary64 q)" ..
  with False show ?thesis by (auto simp: try_number_def cleaned_def Let_def)
qed







lemmas number_eval = try_number_def u_def strip_def remove_char_def py_isspace_def
  startswith_def endswith_def re_match_def number_rx_def seqs_def chr_def py_isdecimal_def
  py_float_def parse_unsigned_def nat_of_digits_def to_binary64_def overflow_bound_def
  rmatch.simps

text \<open>
  C6. The number parser returns -1234.5 (the rational \<open>-2469/2\<close>) for \<open>"(1,234.50)"\<close>,
  1234 for \<open>"1 234"\<close> written with a non-breaking space (U+00A0), and \<open>None\<close>, the
  not-a-number result, for \<open>"abc"\<close>, for \<open>None\<close> and for the empty string.
\<close>

theorem try_number_examples:
  "try_number (PStr (u ''(1,234.50)'')) = Inr (Some (Fin (- (2469 / 2))))
   \<and> try_number (PStr (u ''1'' @ [160] @ u ''234'')) = Inr (Some (Fin 1234))
   \<and> try_number (PStr (u ''abc'')) = Inr None
   \<and> try_number PNone = Inr None
   \<and> try_number (PStr []) = Inr None"
proof (intro conjI)
  show "try_number (PStr (u ''(1,234.50)'')) = Inr (Some (Fin (- (2469 / 2))))"
    by (simp add: number_eval)
  show "try_number (PStr (u ''1'' @ [160] @ u ''234'')) = Inr (Some (Fin 1234))"
    by (simp add: number_eval)
  show "try_number (PStr (u ''abc'')) = Inr None"
    by (simp add: number_eval)
  show "try_number PNone = Inr None"
    by (simp add: try_number_def)
  show "try_number (PStr []) = Inr None"
    by (simp add: number_eval)
qed

theorem try_number_examples_witness:
  "try_number (PStr (u ''(1,234.50)'')) = Inr (Some (Fin (- (2469 / 2))))"
  using try_number_examples by blast




section \<open>The label classifier\<close>

lemma first_rule_find:
  "first_rule rules low = map_option snd (find (\<lambda>(pattern, fixed). re_search pattern low \<noteq> None) rules)"
  by (induction rules) auto

lemmas search_eval = re_search_def search_from.simps rmatch.simps seqs_def word_rule_def
  lit_def chr_def one_of_def alts.simps u_def word_at_def py_isword_def py_isspace_def

lemma LABEL_MAP_empty: "find (\<lambda>(pattern, fixed). re_search pattern [] \<noteq> None) LABEL_MAP = None"
  by (simp add: LABEL_MAP_def search_eval)

lemma LABEL_MAP_targets: "snd ` set LABEL_MAP \<subseteq> set FIXED_ROWS"
  by (simp add: LABEL_MAP_def FIXED_ROWS_def u_def)

lemma FIXED_ROWS_length: "length FIXED_ROWS = 36"
  by (simp add: FIXED_ROWS_def)


text \<open>
  C4. For every label, the classifier returns the canonical item of the first rule of
  \<open>LABEL_MAP\<close>, in list order, whose pattern matches the lower-cased label, and returns
  \<open>None\<close> (unclassified) when no rule matches; so when the patterns of several rules
  match, the rule at the smallest index decides.
\<close>

theorem normalize_label_first_match:
  "normalize_label label =
     map_option snd (find (\<lambda>(pattern, fixed). re_search pattern (lower label) \<noteq> None) LABEL_MAP)
   \<and> (\<forall>i < length LABEL_MAP.
         re_search (fst (LABEL_MAP ! i)) (lower label) \<noteq> None \<and>
         (\<forall>j < i. re_search (fst (LABEL_MAP ! j)) (lower label) = None)
         \<longrightarrow> normalize_label label = Some (snd (LABEL_MAP ! i)))
   \<and> ((\<forall>rule \<in> set LABEL_MAP. re_search (fst rule) (lower label) = None)
         \<longrightarrow> normalize_label label = None)"
proof -
  let ?hit = "\<lambda>(pattern, fixed). re_search pattern (lower label) \<noteq> None"
  have eq: "normalize_label label = map_option snd (find ?hit LABEL_MAP)"
  proof (cases "label = []")
    case True
    then show ?thesis by (simp add: normalize_label_def lower_def LABEL_MAP_empty del: not_None_eq)
  next
    case False
    then show ?thesis by (simp add: normalize_label_def first_rule_find del: not_None_eq)
  qed
  have first: "normalize_label label = Some (snd (LABEL_MAP ! i))"
    if i: "i < length LABEL_MAP" and hit: "re_search (fst (LABEL_MAP ! i)) (lower label) \<noteq> None"
      and before: "\<forall>j < i. re_search (fst (LABEL_MAP ! j)) (lower label) = None" for i
  proof -
    have "find ?hit LABEL_MAP = Some (LABEL_MAP ! i)"
      unfolding find_Some_iff using i hit before
      by (intro exI[of _ i]) (auto simp: case_prod_beta)
    then show ?thesis by (simp add: eq)
  qed
  have none: "normalize_label label = None"
    if "\<forall>rule \<in> set LABEL_MAP. re_search (fst rule) (lower label) = None"
  proof -
    have "find ?hit LABEL_MAP = None"
      unfolding find_None_iff using that by (auto simp: case_prod_beta)
    then show ?thesis by (simp add: eq)
  qed
  from eq first none show ?thesis by blast
qed

text \<open>The label \<open>Marketing and cost of sales\<close> is matched by the first rule (marketing)
  and by the fourth (cost of sales); the first rule decides. No rule matches
  \<open>Headcount\<close>.\<close>

theorem normalize_label_first_match_witness:
  "re_search (fst (LABEL_MAP ! 0)) (lower (u ''Marketing and cost of sales'')) \<noteq> None
   \<and> re_search (fst (LABEL_MAP ! 3)) (lower (u ''Marketing and cost of sales'')) \<noteq> None
   \<and> normalize_label (u ''Marketing and cost of sales'') = Some (u ''OpEx | Sales & Marketing | Media/Ads'')
   \<and> normalize_label (u ''Headcount'') = None"
proof -
  have 0: "re_search (fst (LABEL_MAP ! 0)) (lower (u ''Marketing and cost of sales'')) \<noteq> None"
    by (simp add: LABEL_MAP_def lower_def py_lower_char_def search_eval)
  have 3: "re_search (fst (LABEL_MAP ! 3)) (lower (u ''Marketing and cost of sales'')) \<noteq> None"
    by (simp add: LABEL_MAP_def lower_def py_lower_char_def search_eval)
  have len: "0 < length LABEL_MAP" by (simp add: LABEL_MAP_def)
  have "normalize_label (u ''Marketing and cost of sales'') = Some (snd (LABEL_MAP ! 0))"
    using normalize_label_first_match[of "u ''Marketing and cost of sales''"] 0 len by blast
  moreover have "snd (LABEL_MAP ! 0) = u ''OpEx | Sales & Marketing | Media/Ads''"
    by (simp add: LABEL_MAP_def)
  moreover have "\<forall>rule \<in> set LABEL_MAP. re_search (fst rule) (lower (u ''Headcount'')) = None"
    by (simp add: LABEL_MAP_def lower_def py_lower_char_def search_eval)
  then have "normalize_label (u ''Headcount'') = None"
    using normalize_label_first_match[of "u ''Headcount''"] by blast
  ultimately show ?thesis using 0 3 by simp
qed

section \<open>Rows leaving the extractors\<close>

lemma first_rule_in: "first_rule rules low = Some fixed \<Longrightarrow> fixed \<in> snd ` set rules"
  by (induction rules) (auto split: if_splits)

lemma normalize_label_fixed: "normalize_label label = Some fixed \<Longrightarrow> fixed \<in> set FIXED_ROWS"
proof -
  assume "normalize_label label = Some fixed"
  then have "first_rule LABEL_MAP (lower label) = Some fixed"
    by (auto simp: normalize_label_def split: if_splits)
  then have "fixed \<in> snd ` set LABEL_MAP" by (rule first_rule_in)
  then show ?thesis using LABEL_MAP_targets by auto
qed

lemma collect_all:
  "(\<And>x. x \<in> set xs \<Longrightarrow> \<exists>ys. f x = Inr ys \<and> (\<forall>y \<in> set ys. P y)) \<Longrightarrow>
     \<exists>zs. collect f xs = Inr zs \<and> (\<forall>z \<in> set zs. P z)"
proof (induction xs)
  case Nil
  then show ?case by simp
next
  case (Cons x xs)
  from Cons.prems[of x] obtain ys where ys: "f x = Inr ys" "\<forall>y \<in> set ys. P y" by auto
  from Cons.IH Cons.prems obtain zs where zs: "collect f xs = Inr zs" "\<forall>z \<in> set zs. P z"
    by (metis list.set_intros(2))
  from ys zs show ?case by auto
qed

lemma excel_row_fixed:
  "\<exists>ys. excel_row stem base cs c_label c_amt c_year c_ccy r = Inr ys
        \<and> (\<forall>y \<in> set ys. line_item y \<in> set FIXED_ROWS)"
proof (cases "normalize_label (row_label cs r c_label)")
  case None
  then show ?thesis by (simp add: excel_row_def Let_def)
next
  case (Some fixed)
  from try_number_Inr obtain amt where "try_number (series_get cs r c_amt PNone) = Inr amt" by blast
  with Some normalize_label_fixed[OF Some] show ?thesis by (simp add: excel_row_def Let_def)
qed

lemma pdf_line_fixed:
  "\<exists>ys. pdf_line stem base ccy l = Inr ys \<and> (\<forall>y \<in> set ys. line_item y \<in> set FIXED_ROWS)"
proof (cases "re_search line_rx (strip l)")
  case None
  then show ?thesis by (simp add: pdf_line_def Let_def)
next
  case m: (Some m)
  show ?thesis
  proof (cases "normalize_label (group m 1)")
    case None
    with m show ?thesis by (simp add: pdf_line_def Let_def)
  next
    case (Some fixed)
    from try_number_Inr obtain amt where "try_number (PStr (group m 2)) = Inr amt" by blast
    with m Some normalize_label_fixed[OF Some] show ?thesis
      by (cases amt) (simp_all add: pdf_line_def Let_def)
  qed
qed

lemma extract_from_excel_fixed:
  "\<exists>rows. extract_from_excel sheets stem base = Inr rows
         \<and> (\<forall>r \<in> set rows. line_item r \<in> set FIXED_ROWS)"
  unfolding extract_from_excel_def excel_sheet_def Let_def
  by (intro collect_all excel_row_fixed)

lemma extract_from_pdf_fixed:
  "\<exists>rows. extract_from_pdf pages stem base = Inr rows
         \<and> (\<forall>r \<in> set rows. line_item r \<in> set FIXED_ROWS)"
  unfolding extract_from_pdf_def pdf_text_rows_def
  by (intro collect_all pdf_line_fixed)

text \<open>
  C1. Both extractors return normally, and every row they return has a \<open>line_item\<close>
  that is one of the 36 entries of \<open>FIXED_ROWS\<close>. A spreadsheet row or a text line
  whose label the classifier does not map yields no row at all.
\<close>

theorem extracted_rows_canonical:
  "(\<exists>rows. extract_from_excel sheets stem base = Inr rows
          \<and> (\<forall>r \<in> set rows. line_item r \<in> set FIXED_ROWS))
   \<and> (\<exists>rows. extract_from_pdf pages stem base = Inr rows
          \<and> (\<forall>r \<in> set rows. line_item r \<in> set FIXED_ROWS))
   \<and> length FIXED_ROWS = 36
   \<and> (normalize_label (row_label cs r c_label) = None
        \<longrightarrow> excel_row stem base cs c_label c_amt c_year c_ccy r = Inr [])
   \<and> (re_search line_rx (strip l) = Some m \<and> normalize_label (group m 1) = None
        \<longrightarrow> pdf_line stem base ccy l = Inr [])"
  using extract_from_excel_fixed extract_from_pdf_fixed FIXED_ROWS_length
  by (simp add: excel_row_def pdf_line_def Let_def)

lemmas line_eval = re_search_def search_from.simps rmatch.simps runs.simps line_rx_def seqs_def
  u_def strip_def py_isspace_def py_isdecimal_def group_def

lemma line_example_unmapped:
  "re_search line_rx (strip (u ''Headcount 12'')) =
     Some (rev (u ''Headcount 12''), [], [(2, u ''12''), (1, u ''Headcount'')])"
  by (simp add: line_eval)

text \<open>A spreadsheet row and a text line labelled \<open>Headcount\<close> are dropped.\<close>

theorem extracted_rows_canonical_witness:
  "normalize_label (row_label (map u [''Label'', ''Amount'']) [PStr (u ''Headcount''), PStr (u ''3'')]
       (Some (u ''Label''))) = None
   \<and> excel_row (u ''acme'') None (map u [''Label'', ''Amount'']) (Some (u ''Label''))
       (Some (u ''Amount'')) None None [PStr (u ''Headcount''), PStr (u ''3'')] = Inr []
   \<and> pdf_line (u ''acme'') None (u ''USD'') (u ''Headcount 12'') = Inr []"
proof -
  have h: "normalize_label (row_label (map u [''Label'', ''Amount''])
       [PStr (u ''Headcount''), PStr (u ''3'')] (Some (u ''Label''))) = None"
    by (simp add: row_label_def series_get_def normalize_label_def LABEL_MAP_def lower_def
        py_lower_char_def search_eval)
  have g: "group (rev (u ''Headcount 12''), [], [(2, u ''12''), (1, u ''Headcount'')]) 1 = u ''Headcount''"
    by (simp add: group_def)
  have n: "normalize_label (u ''Headcount'') = None"
    by (simp add: normalize_label_def LABEL_MAP_def lower_def py_lower_char_def search_eval)
  from h g n line_example_unmapped
    extracted_rows_canonical[where cs = "map u [''Label'', ''Amount'']"
      and r = "[PStr (u ''Headcount''), PStr (u ''3'')]" and c_label = "Some (u ''Label'')"
      and stem = "u ''acme''" and base = None and c_amt = "Some (u ''Amount'')"
      and c_year = None and c_ccy = None and l = "u ''Headcount 12''"
      and m = "(rev (u ''Headcount 12''), [], [(2, u ''12''), (1, u ''Headcount'')])"
      and ccy = "u ''USD''"]
  show ?thesis by simp
qed

section \<open>Column detection\<close>

lemma find_col_find:
  "find_col k (zip (map f cs) cs) = find (\<lambda>c. contains (f c) k) cs"
  by (induction cs) auto

lemma col_like_loop_find:
  "col_like_loop (zip (map f cs) cs) keys =
     (case find (\<lambda>k. \<exists>c \<in> set cs. contains (f c) k) keys of
        None \<Rightarrow> None
      | Some k \<Rightarrow> find (\<lambda>c. contains (f c) k) cs)"
proof (induction keys)
  case Nil
  show ?case by simp
next
  case (Cons k ks)
  show ?case
  proof (cases "\<exists>c \<in> set cs. contains (f c) k")
    case True
    then obtain c where "find (\<lambda>c. contains (f c) k) cs = Some c"
      by (metis find_None_iff not_Some_eq)
    with True show ?thesis by (simp add: find_col_find)
  next
    case False
    then have "find (\<lambda>c. contains (f c) k) cs = None" by (simp add: find_None_iff)
    with False Cons show ?thesis by (simp add: find_col_find)
  qed
qed

text \<open>
  C5, as amended. For every table and every role, \<open>col_like\<close> takes the first synonym, in
  the order of the role's synonym list, that the cleaned (trimmed, lower-cased) name of
  some column contains, and returns the first column, in the table's column order, whose
  cleaned name contains that synonym. The role is absent exactly when no column's cleaned
  name contains any of the synonyms.
\<close>

theorem col_like_first_synonym:
  "col_like df_columns keys =
     (case find (\<lambda>k. \<exists>c \<in> set df_columns. contains (clean_name c) k) keys of
        None \<Rightarrow> None
      | Some k \<Rightarrow> find (\<lambda>c. contains (clean_name c) k) df_columns)
   \<and> (col_like df_columns keys = None \<longleftrightarrow>
        (\<forall>k \<in> set keys. \<forall>c \<in> set df_columns. \<not> contains (clean_name c) k))"
proof -
  let ?f = "\<lambda>c. lower (strip c)"
  have eq: "col_like df_columns keys =
     (case find (\<lambda>k. \<exists>c \<in> set df_columns. contains (?f c) k) keys of
        None \<Rightarrow> None
      | Some k \<Rightarrow> find (\<lambda>c. contains (?f c) k) df_columns)"
    unfolding col_like_def by (rule col_like_loop_find)
  have "col_like df_columns keys = None \<longleftrightarrow>
        (\<forall>k \<in> set keys. \<forall>c \<in> set df_columns. \<not> contains (?f c) k)"
  proof (cases "find (\<lambda>k. \<exists>c \<in> set df_columns. contains (?f c) k) keys")
    case None
    then have "\<forall>k \<in> set keys. \<forall>c \<in> set df_columns. \<not> contains (?f c) k"
      by (auto simp: find_None_iff)
    with None show ?thesis unfolding eq by simp
  next
    case (Some k)
    then have k: "k \<in> set keys" "\<exists>c \<in> set df_columns. contains (?f c) k"
      by (auto simp: find_Some_iff)
    then have "find (\<lambda>c. contains (?f c) k) df_columns \<noteq> None"
      unfolding find_None_iff by blast
    with Some k show ?thesis unfolding eq by auto
  qed
  with eq show ?thesis unfolding clean_name_def by blast
qed

lemmas column_eval = col_like_def clean_name_def lower_def strip_def py_lower_char_def
  py_isspace_def u_def startswith_def amount_keys_def first_synonym_column_def

theorem col_like_first_synonym_witness:
  "col_like (map u [''Total'', ''Amount'']) amount_keys = Some (u ''Amount'')
   \<and> find (\<lambda>k. \<exists>c \<in> set (map u [''Total'', ''Amount'']). contains (clean_name c) k) amount_keys
       = Some (u ''amount'')"
proof -
  have 1: "find (\<lambda>k. \<exists>c \<in> set (map u [''Total'', ''Amount'']). contains (clean_name c) k) amount_keys
       = Some (u ''amount'')"
    by (simp add: column_eval)
  have 2: "find (\<lambda>c. contains (clean_name c) (u ''amount'')) (map u [''Total'', ''Amount''])
       = Some (u ''Amount'')"
    by (simp add: column_eval)
  from col_like_first_synonym[of "map u [''Total'', ''Amount'']" amount_keys] 1 2
  show ?thesis by simp
qed

text \<open>
  As the specification states it, C5 does not hold: with the columns \<open>Total\<close> and
  \<open>Amount\<close>, the first column
  whose name contains an amount synonym is \<open>Total\<close>, but \<open>col_like\<close> returns \<open>Amount\<close>,
  because the synonym \<open>amount\<close> comes before \<open>total\<close>.
\<close>

theorem col_like_first_column_counterexample:
  "col_like (map u [''Total'', ''Amount'']) amount_keys = Some (u ''Amount'')
   \<and> first_synonym_column (map u [''Total'', ''Amount'']) amount_keys = Some (u ''Total'')"
  by (simp add: column_eval)

section \<open>The aggregator: groups and sheets\<close>

lemma percent_eq:
  "percent tot amt =
     Inr (case amt of None \<Rightarrow> None
          | Some a \<Rightarrow> if tot = Fin 0 then None else Some (fquot a tot))"
  by (cases amt) (auto simp: percent_def ftruthy_def fdiv_def)

lemma out_line_eq:
  "out_line meta tot lk line =
     Inr [\<lparr>company_name = company_name meta,
           fiscal_year = fiscal_year meta,
           reporting_currency = reporting_currency meta,
           base_currency = (if base_currency meta \<noteq> [] then base_currency meta
                            else reporting_currency meta),
           line_item = line,
           amount = (case lk line of None \<Rightarrow> None | Some i \<Rightarrow> amount i),
           percent_of_revenue =
             (case (case lk line of None \<Rightarrow> None | Some i \<Rightarrow> amount i) of
                None \<Rightarrow> None
              | Some a \<Rightarrow> if tot = Fin 0 then None else Some (fquot a tot))\<rparr>]"
  by (simp add: out_line_def percent_eq Let_def)

lemma collect_singletons:
  "(\<And>x. x \<in> set xs \<Longrightarrow> f x = Inr [g x]) \<Longrightarrow> collect f xs = Inr (map g xs)"
  by (induction xs) auto

lemma lookup_snoc: "lookup (items @ [i]) = (lookup items)(line_item i \<mapsto> i)"
  by (simp add: lookup_def)

lemma lookup_last:
  "lookup items line =
     (case filter (\<lambda>i. line_item i = line) items of [] \<Rightarrow> None | x # xs \<Rightarrow> Some (last (x # xs)))"
proof (induction items rule: rev_induct)
  case Nil
  show ?case by (simp add: lookup_def)
next
  case (snoc i items)
  show ?case
  proof (cases "line_item i = line")
    case True
    then show ?thesis
      by (cases "filter (\<lambda>i. line_item i = line) items") (simp_all add: lookup_snoc)
  next
    case False
    with snoc show ?thesis by (simp add: lookup_snoc)
  qed
qed

lemma total_rev_snoc:
  "total_rev (items @ [r]) =
     (if is_revenue r then fadd (total_rev items) (amount_or_zero r) else total_rev items)"
  by (simp add: total_rev_def)

lemma amount_or_zero_eq:
  "amount_or_zero i = (case amount i of None \<Rightarrow> Fin 0 | Some a \<Rightarrow> a)"
  by (auto simp: amount_or_zero_def ftruthy_def split: option.splits)

lemma total_rev_eq:
  "total_rev items = foldl fadd (Fin 0)
                  (map (\<lambda>i. case amount i of None \<Rightarrow> Fin 0 | Some a \<Rightarrow> a)
                     (filter (\<lambda>i. startswith (line_item i) (u ''Revenue'')) items))"
proof -
  have "amount_or_zero = (\<lambda>i. case amount i of None \<Rightarrow> Fin 0 | Some a \<Rightarrow> a)"
    by (rule ext) (rule amount_or_zero_eq)
  moreover have "is_revenue = (\<lambda>i. startswith (line_item i) (u ''Revenue''))"
    by (rule ext) (simp add: is_revenue_def)
  ultimately show ?thesis by (simp add: total_rev_def)
qed

lemma company_sheet_eq:
  assumes "items \<noteq> []"
  shows "company_sheet (co, items) = Inr [(safe_name co, map (report_row items) FIXED_ROWS)]"
proof -
  from assms obtain meta rest where items: "items = meta # rest" by (cases items) auto
  have "out_line meta (total_rev items) (lookup items) line = Inr [report_row items line]" for line
    unfolding out_line_eq report_row_def Let_def lookup_last total_rev_eq[symmetric]
    by (cases "filter (\<lambda>i. line_item i = line) items") (simp_all add: items)
  then have "collect (out_line meta (total_rev items) (lookup items)) FIXED_ROWS
      = Inr (map (report_row items) FIXED_ROWS)"
    by (intro collect_singletons) simp
  then show ?thesis by (simp add: company_sheet_def items)
qed

lemma map_of_setdefault_append:
  "map_of (setdefault_append d k r) =
     (map_of d)(k \<mapsto> (case map_of d k of None \<Rightarrow> [r] | Some rs \<Rightarrow> rs @ [r]))"
  by (induction d k r rule: setdefault_append.induct) (auto simp: fun_eq_iff)

lemma keys_setdefault_append:
  "map fst (setdefault_append d k r) =
     (if k \<in> set (map fst d) then map fst d else map fst d @ [k])"
  by (induction d k r rule: setdefault_append.induct) auto

lemma distinct_setdefault_append:
  "distinct (map fst d) \<Longrightarrow> distinct (map fst (setdefault_append d k r))"
  by (simp add: keys_setdefault_append)

lemma map_of_foldl_setdefault:
  "map_of (foldl (\<lambda>d r. setdefault_append d (company_key r) r) d rows) k =
     (case map_of d k of
        None \<Rightarrow> (case filter (\<lambda>r. company_key r = k) rows of [] \<Rightarrow> None | x # xs \<Rightarrow> Some (x # xs))
      | Some rs \<Rightarrow> Some (rs @ filter (\<lambda>r. company_key r = k) rows))"
proof (induction rows arbitrary: d)
  case Nil
  show ?case by (simp split: option.splits)
next
  case (Cons r rows)
  show ?case
    unfolding foldl_Cons Cons.IH map_of_setdefault_append
    by (auto split: option.splits list.splits)
qed

lemma distinct_foldl_setdefault:
  "distinct (map fst d) \<Longrightarrow>
     distinct (map fst (foldl (\<lambda>d r. setdefault_append d (company_key r) r) d rows))"
  by (induction rows arbitrary: d) (simp_all add: distinct_setdefault_append)

lemma by_company_distinct: "distinct (map fst (by_company rows))"
  unfolding by_company_def by (rule distinct_foldl_setdefault) simp

lemma by_company_map_of:
  "map_of (by_company rows) co =
     (case filter (\<lambda>r. company_key r = co) rows of [] \<Rightarrow> None | x # xs \<Rightarrow> Some (x # xs))"
  unfolding by_company_def map_of_foldl_setdefault by simp

lemma by_company_entry:
  "(co, items) \<in> set (by_company rows) \<longleftrightarrow>
     items \<noteq> [] \<and> items = filter (\<lambda>r. company_key r = co) rows"
proof -
  have "(co, items) \<in> set (by_company rows) \<longleftrightarrow> map_of (by_company rows) co = Some items"
    using by_company_distinct by (metis map_of_eq_Some_iff)
  then show ?thesis unfolding by_company_map_of by (auto split: list.splits)
qed



lemma report_row_line: "line_item (report_row items line) = line"
  by (simp add: report_row_def Let_def)

lemma report_row_amount:
  "amount (report_row items line) =
     (case filter (\<lambda>i. line_item i = line) items of [] \<Rightarrow> None | x # xs \<Rightarrow> amount (last (x # xs)))"
  by (simp add: report_row_def Let_def)

lemma report_row_percent:
  "percent_of_revenue (report_row items line) =
     (case amount (report_row items line) of
        None \<Rightarrow> None
      | Some a \<Rightarrow> if total_rev items = Fin 0 then None else Some (fquot a (total_rev items)))"
  unfolding total_rev_eq report_row_def Let_def by simp

lemma acme_groups: "by_company acme_rows = [(u ''acme'', acme_rows)]"
  by (simp add: by_company_def acme_rows_def acme_row_def company_key_def u_def)

lemma acme_total: "total_rev acme_rows = Fin 1000"
  by (simp add: total_rev_def acme_rows_def acme_row_def is_revenue_def startswith_def u_def
      amount_or_zero_def ftruthy_def to_binary64_def overflow_bound_def)



text \<open>
  C3. For every company, \<open>total_rev\<close> is the float sum, from left to right, of the amounts
  of the company's rows whose \<open>line_item\<close> starts with \<open>Revenue\<close>, a missing amount
  counting as zero; and in every output row \<open>percent_of_revenue\<close> is the amount divided
  by that total when the amount is present and the total is not zero, and blank
  (\<open>None\<close>) otherwise.
\<close>

theorem revenue_total_and_percent:
  assumes "(co, items) \<in> set (by_company rows)"
  shows "items = filter (\<lambda>r. company_key r = co) rows
     \<and> total_rev items =
         foldl fadd (Fin 0)
           (map (\<lambda>i. case amount i of None \<Rightarrow> Fin 0 | Some a \<Rightarrow> a)
              (filter (\<lambda>i. startswith (line_item i) (u ''Revenue'')) items))
     \<and> (\<exists>out. company_sheet (co, items) = Inr [(safe_name co, out)]
           \<and> (\<forall>ro \<in> set out. percent_of_revenue ro =
                 (case amount ro of
                    None \<Rightarrow> None
                  | Some a \<Rightarrow> if total_rev items = Fin 0 then None
                              else Some (fquot a (total_rev items)))))"
proof -
  from assms have ne: "items \<noteq> []" and it: "items = filter (\<lambda>r. company_key r = co) rows"
    unfolding by_company_entry by blast+
  have "\<forall>ro \<in> set (map (report_row items) FIXED_ROWS). percent_of_revenue ro =
                 (case amount ro of
                    None \<Rightarrow> None
                  | Some a \<Rightarrow> if total_rev items = Fin 0 then None
                              else Some (fquot a (total_rev items)))"
    by (auto simp: report_row_percent)
  with company_sheet_eq[OF ne] it total_rev_eq show ?thesis by blast
qed

text \<open>With a total revenue of 1000, the cost row of 250 is shown with 0.25.\<close>

theorem revenue_total_and_percent_witness:
  "(u ''acme'', acme_rows) \<in> set (by_company acme_rows)
   \<and> total_rev acme_rows = Fin 1000
   \<and> (\<exists>out. company_sheet (u ''acme'', acme_rows) = Inr [(safe_name (u ''acme''), out)]
         \<and> amount (out ! 3) = Some (Fin 250)
         \<and> percent_of_revenue (out ! 3) = Some (Fin (1 / 4)))"
proof -
  have m: "(u ''acme'', acme_rows) \<in> set (by_company acme_rows)" by (simp add: acme_groups)
  from revenue_total_and_percent[OF m] obtain out where
    c: "company_sheet (u ''acme'', acme_rows) = Inr [(safe_name (u ''acme''), out)]"
    and p: "\<forall>ro \<in> set out. percent_of_revenue ro =
                 (case amount ro of
                    None \<Rightarrow> None
                  | Some a \<Rightarrow> if total_rev acme_rows = Fin 0 then None
                              else Some (fquot a (total_rev acme_rows)))"
    by blast
  have ne: "acme_rows \<noteq> []" by (simp add: acme_rows_def)
  from c company_sheet_eq[OF ne, of "u ''acme''"]
  have out: "out = map (report_row acme_rows) FIXED_ROWS" by simp
  have "FIXED_ROWS ! 3 = u ''COGS | Materials''" by (simp add: FIXED_ROWS_def)
  then have o3: "out ! 3 = report_row acme_rows (u ''COGS | Materials'')"
    by (simp add: out FIXED_ROWS_length)
  have a3: "amount (out ! 3) = Some (Fin 250)"
    unfolding o3 report_row_amount by (simp add: acme_rows_def acme_row_def u_def)
  have "out ! 3 \<in> set out" by (simp add: out FIXED_ROWS_length)
  with p have "percent_of_revenue (out ! 3) =
      (case amount (out ! 3) of None \<Rightarrow> None
       | Some a \<Rightarrow> if total_rev acme_rows = Fin 0 then None
                   else Some (fquot a (total_rev acme_rows)))" by blast
  then have "percent_of_revenue (out ! 3) = Some (Fin (1 / 4))"
    by (simp add: a3 acme_total to_binary64_def overflow_bound_def)
  with m c a3 acme_total show ?thesis by blast
qed

text \<open>
  C10. When several rows of one company have the same line item, the output row of that
  item shows the amount of the last of them in input order, while \<open>total_rev\<close> adds up
  every revenue row of the company, the replaced ones included; the percentage shown
  divides the surviving amount by that total.
\<close>

theorem duplicate_items_last_wins:
  assumes "(co, items) \<in> set (by_company rows)"
  shows "items = filter (\<lambda>r. company_key r = co) rows
     \<and> total_rev items = foldl fadd (Fin 0) (map amount_or_zero (filter is_revenue items))
     \<and> (\<forall>xs r. total_rev (xs @ [r]) =
           (if is_revenue r then fadd (total_rev xs) (amount_or_zero r) else total_rev xs))
     \<and> (\<exists>out. company_sheet (co, items) = Inr [(safe_name co, out)]
           \<and> map line_item out = FIXED_ROWS
           \<and> (\<forall>ro \<in> set out.
                 amount ro = (case filter (\<lambda>i. line_item i = line_item ro) items of
                               [] \<Rightarrow> None
                             | x # xs \<Rightarrow> amount (last (x # xs)))
                 \<and> percent_of_revenue ro =
                     (case amount ro of
                        None \<Rightarrow> None
                      | Some a \<Rightarrow> if total_rev items = Fin 0 then None
                                  else Some (fquot a (total_rev items)))))"
proof -
  from assms have ne: "items \<noteq> []" and it: "items = filter (\<lambda>r. company_key r = co) rows"
    unfolding by_company_entry by blast+
  let ?out = "map (report_row items) FIXED_ROWS"
  have 1: "map line_item ?out = FIXED_ROWS" by (simp add: report_row_line map_idI)
  have 2: "\<forall>ro \<in> set ?out.
                 amount ro = (case filter (\<lambda>i. line_item i = line_item ro) items of
                               [] \<Rightarrow> None
                             | x # xs \<Rightarrow> amount (last (x # xs)))
                 \<and> percent_of_revenue ro =
                     (case amount ro of
                        None \<Rightarrow> None
                      | Some a \<Rightarrow> if total_rev items = Fin 0 then None
                                  else Some (fquot a (total_rev items)))"
    by (auto simp: report_row_percent report_row_amount report_row_line)
  have 3: "total_rev items = foldl fadd (Fin 0) (map amount_or_zero (filter is_revenue items))"
    by (simp add: total_rev_def)
  from company_sheet_eq[OF ne] it 1 2 3 total_rev_snoc show ?thesis by blast
qed

text \<open>Two revenue rows of 250 and 750 for the same item: 750 is shown, the total is 1000,
  and the percentage shown is 0.75.\<close>

theorem duplicate_items_last_wins_witness:
  "(u ''acme'', acme_rows) \<in> set (by_company acme_rows)
   \<and> total_rev acme_rows = Fin 1000
   \<and> (\<exists>out. company_sheet (u ''acme'', acme_rows) = Inr [(safe_name (u ''acme''), out)]
         \<and> line_item (out ! 0) = u ''Revenue | Product''
         \<and> amount (out ! 0) = Some (Fin 750)
         \<and> percent_of_revenue (out ! 0) = Some (Fin (3 / 4)))"
proof -
  have m: "(u ''acme'', acme_rows) \<in> set (by_company acme_rows)" by (simp add: acme_groups)
  from duplicate_items_last_wins[OF m] obtain out where
    c: "company_sheet (u ''acme'', acme_rows) = Inr [(safe_name (u ''acme''), out)]"
    and l: "map line_item out = FIXED_ROWS"
    and p: "\<forall>ro \<in> set out.
                 amount ro = (case filter (\<lambda>i. line_item i = line_item ro) acme_rows of
                               [] \<Rightarrow> None
                             | x # xs \<Rightarrow> amount (last (x # xs)))
                 \<and> percent_of_revenue ro =
                     (case amount ro of
                        None \<Rightarrow> None
                      | Some a \<Rightarrow> if total_rev acme_rows = Fin 0 then None
                                  else Some (fquot a (total_rev acme_rows)))"
    by blast
  from l have len: "length out = 36" using FIXED_ROWS_length by (metis length_map)
  from l have "map line_item out ! 0 = FIXED_ROWS ! 0" by simp
  then have l0: "line_item (out ! 0) = u ''Revenue | Product''"
    using len by (simp add: FIXED_ROWS_def)
  have mem: "out ! 0 \<in> set out" using len by simp
  from p mem have "amount (out ! 0) =
      (case filter (\<lambda>i. line_item i = line_item (out ! 0)) acme_rows of
         [] \<Rightarrow> None | x # xs \<Rightarrow> amount (last (x # xs)))" by blast
  then have a0: "amount (out ! 0) = Some (Fin 750)"
    unfolding l0 by (simp add: acme_rows_def acme_row_def u_def)
  from p mem have "percent_of_revenue (out ! 0) =
      (case amount (out ! 0) of None \<Rightarrow> None
       | Some a \<Rightarrow> if total_rev acme_rows = Fin 0 then None
                   else Some (fquot a (total_rev acme_rows)))" by blast
  then have "percent_of_revenue (out ! 0) = Some (Fin (3 / 4))"
    by (simp add: a0 acme_total to_binary64_def overflow_bound_def)
  with m c l0 a0 acme_total show ?thesis by blast
qed

section \<open>Unparsable amounts\<close>

lemma FIXED_ROWS_nonempty: "[] \<notin> set FIXED_ROWS"
  by (simp add: FIXED_ROWS_def u_def)

lemma normalize_label_nonempty: "normalize_label label = Some fixed \<Longrightarrow> fixed \<noteq> []"
  using normalize_label_fixed FIXED_ROWS_nonempty by metis

lemma line_example:
  "re_search line_rx (strip (u ''Revenue 1.2.3'')) =
     Some (rev (u ''Revenue 1.2.3''), [], [(2, u ''1.2.3''), (1, u ''Revenue'')])"
  by (simp add: line_eval)

text \<open>
  C9. Neither extractor ever fails. When the amount does not parse (\<open>try_number\<close>
  returns \<open>None\<close>), the tabular extractor still emits the row of a classified label,
  with an absent amount, whereas the text extractor emits no row for the line.
\<close>

theorem unparsable_amount:
  "(\<exists>rows. extract_from_excel sheets stem base = Inr rows)
   \<and> (\<exists>rows. extract_from_pdf pages stem base = Inr rows)
   \<and> (normalize_label (row_label cs r c_label) = Some fixed
        \<and> try_number (series_get cs r c_amt PNone) = Inr None
      \<longrightarrow> excel_row stem base cs c_label c_amt c_year c_ccy r =
            Inr [\<lparr>company_name = stem,
                  fiscal_year = cell_text cs r c_year,
                  reporting_currency = cell_text cs r c_ccy,
                  base_currency = resolve_base base (cell_text cs r c_ccy),
                  line_item = fixed,
                  amount = None\<rparr>])
   \<and> (re_search line_rx (strip l) = Some m \<and> try_number (PStr (group m 2)) = Inr None
      \<longrightarrow> pdf_line stem base ccy l = Inr [])"
proof (intro conjI impI)
  show "\<exists>rows. extract_from_excel sheets stem base = Inr rows"
    using extract_from_excel_fixed by blast
  show "\<exists>rows. extract_from_pdf pages stem base = Inr rows"
    using extract_from_pdf_fixed by blast
next
  assume a: "normalize_label (row_label cs r c_label) = Some fixed
        \<and> try_number (series_get cs r c_amt PNone) = Inr None"
  then have "fixed \<noteq> []" using normalize_label_nonempty by blast
  with a show "excel_row stem base cs c_label c_amt c_year c_ccy r =
            Inr [\<lparr>company_name = stem,
                  fiscal_year = cell_text cs r c_year,
                  reporting_currency = cell_text cs r c_ccy,
                  base_currency = resolve_base base (cell_text cs r c_ccy),
                  line_item = fixed,
                  amount = None\<rparr>]"
    by (simp add: excel_row_def Let_def)
next
  assume "re_search line_rx (strip l) = Some m \<and> try_number (PStr (group m 2)) = Inr None"
  then show "pdf_line stem base ccy l = Inr []"
    by (simp add: pdf_line_def Let_def split: option.splits)
qed

text \<open>A spreadsheet row \<open>Revenue, n/a\<close> is emitted with an absent amount; the text line
  \<open>Revenue 1.2.3\<close> is dropped.\<close>

theorem unparsable_amount_witness:
  "try_number (PStr (u ''n/a'')) = Inr None
   \<and> excel_row (u ''acme'') None (map u [''Label'', ''Amount'']) (Some (u ''Label''))
        (Some (u ''Amount'')) None None [PStr (u ''Revenue''), PStr (u ''n/a'')] =
      Inr [\<lparr>company_name = u ''acme'', fiscal_year = [], reporting_currency = [],
            base_currency = [], line_item = u ''Revenue | Product'', amount = None\<rparr>]
   \<and> try_number (PStr (u ''1.2.3'')) = Inr None
   \<and> pdf_line (u ''acme'') None (u ''USD'') (u ''Revenue 1.2.3'') = Inr []"
proof -
  let ?cs = "map u [''Label'', ''Amount'']"
  let ?r = "[PStr (u ''Revenue''), PStr (u ''n/a'')]"
  have g: "series_get ?cs ?r (Some (u ''Amount'')) PNone = PStr (u ''n/a'')"
    by (simp add: series_get_def u_def)
  have n: "normalize_label (row_label ?cs ?r (Some (u ''Label''))) = Some (u ''Revenue | Product'')"
    by (simp add: row_label_def series_get_def normalize_label_def LABEL_MAP_def lower_def
        py_lower_char_def search_eval)
  have t1: "try_number (PStr (u ''n/a'')) = Inr None" by (simp add: number_eval)
  have t2: "try_number (PStr (u ''1.2.3'')) = Inr None" by (simp add: number_eval)
  have g2: "group (rev (u ''Revenue 1.2.3''), [], [(2, u ''1.2.3''), (1, u ''Revenue'')]) 2 = u ''1.2.3''"
    by (simp add: group_def)
  have c: "cell_text ?cs ?r None = []" by (simp add: cell_text_def)
  have b: "resolve_base None [] = []" by (simp add: resolve_base_def)
  from unparsable_amount[where cs = ?cs and r = ?r and c_label = "Some (u ''Label'')"
      and c_amt = "Some (u ''Amount'')" and fixed = "u ''Revenue | Product''"
      and stem = "u ''acme''" and base = None and c_year = None and c_ccy = None
      and l = "u ''Revenue 1.2.3''"
      and m = "(rev (u ''Revenue 1.2.3''), [], [(2, u ''1.2.3''), (1, u ''Revenue'')])"
      and ccy = "u ''USD''"]
    n g t1 t2 g2 line_example c b
  show ?thesis by simp
qed

section \<open>The reporting-currency guess\<close>







lemma istarts_length: "istarts w q \<Longrightarrow> length w \<le> length q"
proof (induction w arbitrary: q)
  case Nil
  show ?case by simp
next
  case (Cons b w)
  then show ?case by (cases q) auto
qed





















lemmas currency_eval = rep_ccy_def re_search_def search_from.simps rmatch.simps usd_rx_def
  eur_rx_def gbp_rx_def alts.simps seqs_def ilit_def ichr_def chr_def u_def word_at_def
  py_isword_def py_lower_char_def





text \<open>The alternatives \<open>\<euro>\b\<close> and \<open>\<pounds>\b\<close> ask for a word character right after the
  sign, so a sign that ends the text or stands before a space is not seen, while one
  before a digit is.\<close>

lemma rep_ccy_sign_examples:
  "rep_ccy (u ''100 '' @ [8364]) = [] \<and> rep_ccy ([8364] @ u ''100'') = u ''EUR''
   \<and> rep_ccy (u ''100 '' @ [163]) = [] \<and> rep_ccy ([163] @ u ''100'') = u ''GBP''"
  by (simp add: currency_eval)

end
